theory Spec2Isabelle
  imports Main
begin

section \<open>JavaScript values and failures\<close>

text \<open>
  Action payloads are arbitrary JavaScript values: an action creator of a slice passes on
  whatever its caller hands it, and the fulfilled action of the thunk carries whatever
  \<^verbatim>\<open>response.json()\<close> produced.  A number is written as the integer it is: the
  ids and values of the counters are integer-valued doubles.  An object is an association
  list of its own properties; the first binding of a key is the one read.
\<close>

datatype jsval =
    JUndefined
  | JNull
  | JBool bool
  | JNum int
  | JStr string
  | JArr "jsval list"
  | JObj "(string \<times> jsval) list"

text \<open>The only failure the reducers can raise: reading a property of
  \<^verbatim>\<open>undefined\<close> or \<^verbatim>\<open>null\<close>.\<close>

datatype js_error = TypeError

text \<open>
  \<^verbatim>\<open>v.id\<close>: a TypeError on \<^verbatim>\<open>undefined\<close> and \<^verbatim>\<open>null\<close>, the
  property of an object when it has one, and \<^verbatim>\<open>undefined\<close> otherwise (booleans,
  numbers, strings and arrays have no property named \<^verbatim>\<open>id\<close>).
\<close>

fun get_id :: "jsval \<Rightarrow> js_error + jsval" where
  "get_id JUndefined = Inl TypeError"
| "get_id JNull = Inl TypeError"
| "get_id (JObj fs) = Inr (case map_of fs ''id'' of None \<Rightarrow> JUndefined | Some v \<Rightarrow> v)"
| "get_id v = Inr JUndefined"

section \<open>Actions\<close>

text \<open>
  An action has a \<^verbatim>\<open>type\<close> string and a \<^verbatim>\<open>payload\<close>.  The rejected action
  of a thunk also carries \<^verbatim>\<open>error\<close>, a serialized error object built by
  \<^verbatim>\<open>createAsyncThunk\<close>; \<open>error_message\<close> is its \<^verbatim>\<open>message\<close> string, which
  is all the reducers read of it.
\<close>

record action =
  type :: string
  payload :: jsval
  error_message :: string

section \<open>Arithmetic on numbers\<close>

text \<open>
  A JavaScript number is an IEEE-754 double: a significand of 53 bits and a power of two.
  The integers up to \<open>2 ^ 53\<close> in magnitude are all doubles; beyond, only the multiples
  of the unit in the last place are.  \<open>ulp_exp n\<close> is the exponent of that unit for
  the magnitude \<open>n\<close>: the number of halvings that bring \<open>n\<close> below \<open>2 ^ 53\<close>.
\<close>

function ulp_exp :: "nat \<Rightarrow> nat" where
  "ulp_exp n = (if n < 2 ^ 53 then 0 else Suc (ulp_exp (n div 2)))"
  by pat_completeness auto
termination
  by (relation "measure id") auto

declare ulp_exp.simps [simp del]

text \<open>The integers that are doubles (below the overflow threshold, which no counter
  step reaches: one more or one less than a double of that size rounds back to it).\<close>

definition is_double :: "int \<Rightarrow> bool" where
  "is_double v = (nat \<bar>v\<bar> mod 2 ^ ulp_exp (nat \<bar>v\<bar>) = 0)"

text \<open>
  The result of an addition or subtraction is the exact result rounded to the nearest
  double, a tie going to the double whose significand is even.  \<open>q\<close> is the significand
  cut to 53 bits, \<open>r\<close> what was cut off and \<open>h\<close> half a unit in the last place.
\<close>

definition round_double :: "int \<Rightarrow> int" where
  "round_double x =
     (let n = nat \<bar>x\<bar>; e = ulp_exp n in
      if e = 0 then x
      else let q = n div 2 ^ e; r = n mod 2 ^ e; h = 2 ^ (e - 1);
               q' = (if r < h then q else if h < r then q + 1 else if even q then q else q + 1)
           in sgn x * int (q' * 2 ^ e))"

section \<open>The counter slice\<close>

record counter =
  id_c :: int
  value_c :: int

definition counter_initialState :: "counter list" where
  "counter_initialState = [\<lparr>id_c = 1, value_c = 0\<rparr>, \<lparr>id_c = 2, value_c = 0\<rparr>]"

text \<open>
  \<^verbatim>\<open>Array.prototype.findIndex\<close>: the index of the first element the callback accepts,
  \<open>-1\<close> when there is none.  The callback runs on the elements in order and may throw,
  which ends the search; on an empty array it never runs.
\<close>

fun findIndexFrom :: "int \<Rightarrow> ('a \<Rightarrow> js_error + bool) \<Rightarrow> 'a list \<Rightarrow> js_error + int" where
  "findIndexFrom i p [] = Inr (- 1)"
| "findIndexFrom i p (x # xs) =
     (case p x of
        Inl e \<Rightarrow> Inl e
      | Inr b \<Rightarrow> if b then Inr i else findIndexFrom (i + 1) p xs)"

definition findIndex :: "('a \<Rightarrow> js_error + bool) \<Rightarrow> 'a list \<Rightarrow> js_error + int" where
  "findIndex p xs = findIndexFrom 0 p xs"

text \<open>The callback \<^verbatim>\<open>c => c.id === action.payload.id\<close>: strict equality of the
  counter's number with whatever the payload's \<^verbatim>\<open>id\<close> is.\<close>

definition same_id :: "action \<Rightarrow> counter \<Rightarrow> js_error + bool" where
  "same_id a c =
     (case get_id (payload a) of
        Inl e \<Rightarrow> Inl e
      | Inr v \<Rightarrow> Inr (JNum (id_c c) = v))"

text \<open>
  \<^verbatim>\<open>state[counterIndex].value++\<close> and \<^verbatim>\<open>state[counterIndex].value--\<close> on the
  draft of the array, with the step \<open>f\<close> (one more or one less, as doubles add)
  applied to the value.  Outside the array
  (\<open>counterIndex = -1\<close>) the element read is \<^verbatim>\<open>undefined\<close> and reading its
  \<^verbatim>\<open>value\<close> is a TypeError; the draft is then dropped.
\<close>

definition update_value :: "(int \<Rightarrow> int) \<Rightarrow> counter list \<Rightarrow> int \<Rightarrow> js_error + counter list" where
  "update_value f state counterIndex =
     (if 0 \<le> counterIndex \<and> counterIndex < int (length state)
      then Inr (state[nat counterIndex :=
                  (state ! nat counterIndex)\<lparr>value_c := f (value_c (state ! nat counterIndex))\<rparr>])
      else Inl TypeError)"

definition increment :: "counter list \<Rightarrow> action \<Rightarrow> js_error + counter list" where
  "increment state a =
     (case findIndex (same_id a) state of
        Inl e \<Rightarrow> Inl e
      | Inr counterIndex \<Rightarrow> update_value (\<lambda>v. round_double (v + 1)) state counterIndex)"

definition decrement :: "counter list \<Rightarrow> action \<Rightarrow> js_error + counter list" where
  "decrement state a =
     (case findIndex (same_id a) state of
        Inl e \<Rightarrow> Inl e
      | Inr counterIndex \<Rightarrow> update_value (\<lambda>v. round_double (v - 1)) state counterIndex)"

text \<open>
  The reducer \<^verbatim>\<open>createSlice\<close> builds for the slice named \<^verbatim>\<open>counters\<close>: the
  case reducer whose key, prefixed by the slice name, is the action's type; the state as
  it is for every other type.
\<close>

definition counterReducer :: "counter list \<Rightarrow> action \<Rightarrow> js_error + counter list" where
  "counterReducer state a =
     (if type a = ''counters/increment'' then increment state a
      else if type a = ''counters/decrement'' then decrement state a
      else Inr state)"

text \<open>The action creators \<^verbatim>\<open>increment\<close> and \<^verbatim>\<open>decrement\<close> of the slice, and
  the payload \<^verbatim>\<open>{ id: k }\<close> the components call them with.\<close>

definition increment_action :: "jsval \<Rightarrow> action" where
  "increment_action p = \<lparr>type = ''counters/increment'', payload = p, error_message = ''''\<rparr>"

definition decrement_action :: "jsval \<Rightarrow> action" where
  "decrement_action p = \<lparr>type = ''counters/decrement'', payload = p, error_message = ''''\<rparr>"

definition with_id :: "int \<Rightarrow> jsval" where
  "with_id k = JObj [(''id'', JNum k)]"

section \<open>The posts slice\<close>

record posts_state =
  posts :: jsval
  isLoading :: bool
  isError :: bool
  error :: string

definition post_initialState :: posts_state where
  "post_initialState = \<lparr>posts = JArr [], isLoading = False, isError = False, error = ''''\<rparr>"

text \<open>The three case reducers of \<^verbatim>\<open>extraReducers\<close>, in the order of the builder.\<close>

definition on_pending :: "posts_state \<Rightarrow> posts_state" where
  "on_pending state = state\<lparr>isLoading := True, isError := False, error := ''''\<rparr>"

definition on_fulfilled :: "posts_state \<Rightarrow> action \<Rightarrow> posts_state" where
  "on_fulfilled state a = state\<lparr>isLoading := False, posts := payload a\<rparr>"

definition on_rejected :: "posts_state \<Rightarrow> action \<Rightarrow> posts_state" where
  "on_rejected state a = state\<lparr>isLoading := False, isError := True, error := error_message a\<rparr>"

text \<open>
  The reducer of the slice: the thunk's type prefix is \<^verbatim>\<open>posts/fetchPosts\<close>, and
  its three action creators have the types below; every other type leaves the state.
\<close>

definition postReducer :: "posts_state \<Rightarrow> action \<Rightarrow> posts_state" where
  "postReducer state a =
     (if type a = ''posts/fetchPosts/pending'' then on_pending state
      else if type a = ''posts/fetchPosts/fulfilled'' then on_fulfilled state a
      else if type a = ''posts/fetchPosts/rejected'' then on_rejected state a
      else state)"

text \<open>The actions \<^verbatim>\<open>createAsyncThunk\<close> dispatches for \<^verbatim>\<open>fetchPosts\<close>.\<close>

definition pending_action :: action where
  "pending_action = \<lparr>type = ''posts/fetchPosts/pending'', payload = JUndefined, error_message = ''''\<rparr>"

definition fulfilled_action :: "jsval \<Rightarrow> action" where
  "fulfilled_action p = \<lparr>type = ''posts/fetchPosts/fulfilled'', payload = p, error_message = ''''\<rparr>"

definition rejected_action :: "string \<Rightarrow> action" where
  "rejected_action m = \<lparr>type = ''posts/fetchPosts/rejected'', payload = JUndefined, error_message = m\<rparr>"

text \<open>
  What the flags say, as the \<^verbatim>\<open>Posts\<close> component reads them: it shows the loading
  line when \<^verbatim>\<open>isLoading\<close> is set and the error line when \<^verbatim>\<open>isError\<close> is set.
  The slice keeps no flag that tells a region that has never fetched from one whose fetch
  succeeded: both are settled without an error.
\<close>

definition status_loading :: "posts_state \<Rightarrow> bool" where
  "status_loading state = isLoading state"

definition status_failed :: "posts_state \<Rightarrow> bool" where
  "status_failed state = (\<not> isLoading state \<and> isError state)"

definition status_succeeded :: "posts_state \<Rightarrow> bool" where
  "status_succeeded state = (\<not> isLoading state \<and> \<not> isError state)"

text \<open>The region after a list of actions, oldest first.\<close>

definition run_posts :: "posts_state \<Rightarrow> action list \<Rightarrow> posts_state" where
  "run_posts state as = foldl postReducer state as"

text \<open>
  Of a list of actions, oldest first: the most recent pending or rejected action is a
  rejected one that carries the empty message.  (Fulfilled actions and actions of other
  types after it do not count: they leave the flag and the message.)
\<close>

definition empty_rejection_last :: "action list \<Rightarrow> bool" where
  "empty_rejection_last as =
     (case find (\<lambda>a. type a = ''posts/fetchPosts/pending'' \<or> type a = ''posts/fetchPosts/rejected'')
             (rev as) of
        None \<Rightarrow> False
      | Some a \<Rightarrow> type a = ''posts/fetchPosts/rejected'' \<and> error_message a = '''')"

section \<open>The store\<close>

record root_state =
  state_counters :: "counter list"
  state_posts :: posts_state

definition store_initialState :: root_state where
  "store_initialState = \<lparr>state_counters = counter_initialState, state_posts = post_initialState\<rparr>"

text \<open>
  The root reducer \<^verbatim>\<open>configureStore\<close> combines from the two slice reducers: every
  action goes to both, under the keys \<^verbatim>\<open>counters\<close> and \<^verbatim>\<open>posts\<close> in that
  order, and a reducer that throws ends the dispatch without a new state.
\<close>

definition rootReducer :: "root_state \<Rightarrow> action \<Rightarrow> js_error + root_state" where
  "rootReducer state a =
     (case counterReducer (state_counters state) a of
        Inl e \<Rightarrow> Inl e
      | Inr cs \<Rightarrow> Inr \<lparr>state_counters = cs, state_posts = postReducer (state_posts state) a\<rparr>)"

section \<open>The thunk\<close>

text \<open>
  What the network does is the input: \<^verbatim>\<open>fetch\<close> either throws (with a message) or
  completes with a response, whatever its HTTP status; \<^verbatim>\<open>response.json()\<close> either
  throws (the body is not JSON) or yields the parsed value.
\<close>

record response =
  status :: nat
  json :: "string + jsval"

definition fetchPosts_body :: "string + response \<Rightarrow> string + jsval" where
  "fetchPosts_body fetched =
     (case fetched of
        Inl m \<Rightarrow> Inl m
      | Inr response \<Rightarrow>
          (case json response of
             Inl m \<Rightarrow> Inl m
           | Inr data \<Rightarrow> Inr data))"

text \<open>
  \<^verbatim>\<open>createAsyncThunk\<close> around the body: the pending action first, then the
  fulfilled action with what the body returned, or the rejected action with the message
  of what it threw.
\<close>

definition fetchPosts :: "string + response \<Rightarrow> action list" where
  "fetchPosts fetched =
     [pending_action,
      (case fetchPosts_body fetched of
         Inl m \<Rightarrow> rejected_action m
       | Inr data \<Rightarrow> fulfilled_action data)]"

section \<open>Lemmas on rounding\<close>

lemma ulp_exp_small: "n < 2 ^ 53 \<Longrightarrow> ulp_exp n = 0"
  by (subst ulp_exp.simps) simp

lemma ulp_exp_large: "2 ^ 53 \<le> n \<Longrightarrow> ulp_exp n = Suc (ulp_exp (n div 2))"
  by (subst ulp_exp.simps) simp

lemma ulp_exp_pos: "2 ^ 53 \<le> n \<Longrightarrow> 0 < ulp_exp n"
  by (simp add: ulp_exp_large)

text \<open>Beyond \<open>2 ^ 53\<close> the significand that is kept has exactly 53 bits.\<close>

lemma significand_range:
  "0 < ulp_exp n \<Longrightarrow> 2 ^ 52 \<le> n div 2 ^ ulp_exp n \<and> n div 2 ^ ulp_exp n < 2 ^ 53"
proof (induction n rule: ulp_exp.induct)
  case (1 n)
  from 1(2) have big: "\<not> n < 2 ^ 53" using ulp_exp_small [of n] by auto
  show ?case
  proof (cases "n div 2 < 2 ^ 53")
    case True
    then have e: "ulp_exp n = 1" using big by (simp add: ulp_exp_small ulp_exp_large)
    from big True show ?thesis unfolding e by auto
  next
    case False
    have e: "ulp_exp n = Suc (ulp_exp (n div 2))" using big by (simp add: ulp_exp_large)
    have pos: "0 < ulp_exp (n div 2)" using False by (intro ulp_exp_pos) simp
    have "n div 2 ^ ulp_exp n = (n div 2) div 2 ^ ulp_exp (n div 2)"
      unfolding e by (simp add: div_mult2_eq)
    with 1(1) [OF big pos] show ?thesis by simp
  qed
qed

lemma round_double_exact: "\<bar>x\<bar> \<le> 2 ^ 53 \<Longrightarrow> round_double x = x"
proof (cases "\<bar>x\<bar> = 2 ^ 53")
  case True
  have "round_double (2 ^ 53) = 2 ^ 53" and "round_double (- (2 ^ 53)) = - (2 ^ 53)"
    by (simp_all add: round_double_def Let_def ulp_exp_small ulp_exp_large)
  moreover from True have "x = 2 ^ 53 \<or> x = - (2 ^ 53)"
    by (auto simp: abs_if split: if_splits)
  ultimately show ?thesis by auto
next
  case False
  assume "\<bar>x\<bar> \<le> 2 ^ 53"
  with False have "nat \<bar>x\<bar> < 2 ^ 53" by (simp add: nat_less_iff)
  then show ?thesis by (simp add: round_double_def ulp_exp_small Let_def)
qed

lemma round_double_even: "2 ^ 53 < \<bar>x\<bar> \<Longrightarrow> even (round_double x)"
proof -
  assume "2 ^ 53 < \<bar>x\<bar>"
  then have "2 ^ 53 \<le> nat \<bar>x\<bar>" by (simp add: le_nat_iff)
  then have "0 < ulp_exp (nat \<bar>x\<bar>)" by (rule ulp_exp_pos)
  then show ?thesis by (simp add: round_double_def Let_def)
qed

lemma is_double_small: "\<bar>v\<bar> < 2 ^ 53 \<Longrightarrow> is_double v"
proof -
  assume "\<bar>v\<bar> < 2 ^ 53"
  then have "nat \<bar>v\<bar> < 2 ^ 53" by (simp add: nat_less_iff)
  then show ?thesis by (simp add: is_double_def ulp_exp_small)
qed

lemma is_double_even: "is_double v \<Longrightarrow> 2 ^ 53 \<le> \<bar>v\<bar> \<Longrightarrow> even v"
proof -
  assume d: "is_double v" and "2 ^ 53 \<le> \<bar>v\<bar>"
  then have "2 ^ 53 \<le> nat \<bar>v\<bar>" by (simp add: le_nat_iff)
  then have "0 < ulp_exp (nat \<bar>v\<bar>)" by (rule ulp_exp_pos)
  then have "(2::nat) dvd 2 ^ ulp_exp (nat \<bar>v\<bar>)" by simp
  moreover from d have "2 ^ ulp_exp (nat \<bar>v\<bar>) dvd nat \<bar>v\<bar>"
    by (simp add: is_double_def mod_eq_0_iff_dvd)
  ultimately have "2 dvd nat \<bar>v\<bar>" by (rule dvd_trans)
  then show "even v" by (simp add: even_nat_iff)
qed

text \<open>One more than a double is that double's successor integer exactly in the range
  below; outside it the sum is odd and too large to be a double.\<close>

lemma exact_increment_iff:
  assumes "is_double v"
  shows "(round_double (v + 1) = v + 1) = (- (2 ^ 53) \<le> v \<and> v < 2 ^ 53)"
proof (cases "- (2 ^ 53) \<le> v \<and> v < 2 ^ 53")
  case True
  then have "\<bar>v + 1\<bar> \<le> 2 ^ 53" by auto
  then show ?thesis using True by (simp add: round_double_exact)
next
  case False
  then have big: "2 ^ 53 \<le> \<bar>v\<bar>" by auto
  with assms have ev: "even v" by (rule is_double_even)
  have "2 ^ 53 < \<bar>v + 1\<bar>"
  proof (cases "v < 0")
    case True
    with False have "v < - (2 ^ 53)" by auto
    moreover have "v \<noteq> - (2 ^ 53) - 1" using ev by auto
    ultimately show ?thesis by auto
  next
    case nonneg: False
    with False show ?thesis by auto
  qed
  then have "even (round_double (v + 1))" by (rule round_double_even)
  moreover have "odd (v + 1)" using ev by simp
  ultimately show ?thesis using False by auto
qed

lemma exact_decrement_iff:
  assumes "is_double v"
  shows "(round_double (v - 1) = v - 1) = (- (2 ^ 53) < v \<and> v \<le> 2 ^ 53)"
proof (cases "- (2 ^ 53) < v \<and> v \<le> 2 ^ 53")
  case True
  then have "\<bar>v - 1\<bar> \<le> 2 ^ 53" by auto
  then show ?thesis using True by (simp add: round_double_exact)
next
  case False
  then have big: "2 ^ 53 \<le> \<bar>v\<bar>" by auto
  with assms have ev: "even v" by (rule is_double_even)
  have "2 ^ 53 < \<bar>v - 1\<bar>"
  proof (cases "v < 0")
    case True
    with False show ?thesis by auto
  next
    case nonneg: False
    with False have "2 ^ 53 < v" by auto
    moreover have "v \<noteq> 2 ^ 53 + 1" using ev by auto
    ultimately show ?thesis by auto
  qed
  then have "even (round_double (v - 1))" by (rule round_double_even)
  moreover have "odd (v - 1)" using ev by simp
  ultimately show ?thesis using False by auto
qed

section \<open>Lemmas on the search and the update\<close>

lemma payload_increment_action [simp]: "payload (increment_action p) = p"
  by (simp add: increment_action_def)

lemma payload_decrement_action [simp]: "payload (decrement_action p) = p"
  by (simp add: decrement_action_def)

lemma type_increment_action [simp]: "type (increment_action p) = ''counters/increment''"
  by (simp add: increment_action_def)

lemma type_decrement_action [simp]: "type (decrement_action p) = ''counters/decrement''"
  by (simp add: decrement_action_def)

lemma same_id_with_id: "payload a = with_id k \<Longrightarrow> same_id a c = Inr (id_c c = k)"
  by (simp add: same_id_def with_id_def)

lemma findIndexFrom_miss:
  "(\<And>x. x \<in> set xs \<Longrightarrow> p x = Inr False) \<Longrightarrow> findIndexFrom i p xs = Inr (- 1)"
  by (induction xs arbitrary: i) simp_all

lemma findIndexFrom_hit:
  "(\<And>x. x \<in> set xs \<Longrightarrow> p x = Inr False) \<Longrightarrow> p c = Inr True \<Longrightarrow>
   findIndexFrom i p (xs @ c # ys) = Inr (i + int (length xs))"
  by (induction xs arbitrary: i) simp_all

lemma findIndex_miss:
  assumes "payload a = with_id k" and "k \<notin> set (map id_c state)"
  shows "findIndex (same_id a) state = Inr (- 1)"
  unfolding findIndex_def
proof (rule findIndexFrom_miss)
  fix x assume "x \<in> set state"
  with assms(2) have "id_c x \<noteq> k" by auto
  with assms(1) show "same_id a x = Inr False" by (simp add: same_id_with_id)
qed

lemma findIndex_hit:
  assumes "payload a = with_id k" and "k \<notin> set (map id_c xs)" and "id_c c = k"
  shows "findIndex (same_id a) (xs @ c # ys) = Inr (int (length xs))"
proof -
  have miss: "\<And>x. x \<in> set xs \<Longrightarrow> same_id a x = Inr False"
  proof -
    fix x assume "x \<in> set xs"
    with assms(2) have "id_c x \<noteq> k" by auto
    with assms(1) show "same_id a x = Inr False" by (simp add: same_id_with_id)
  qed
  have hit: "same_id a c = Inr True"
    using assms(1,3) by (simp add: same_id_with_id)
  show ?thesis
    unfolding findIndex_def
    using findIndexFrom_hit [where xs = xs and p = "same_id a" and c = c and i = 0 and ys = ys]
      miss hit
    by simp
qed

lemma update_value_outside: "update_value f state (- 1) = Inl TypeError"
  by (simp add: update_value_def)

lemma update_value_at:
  "update_value f (xs @ c # ys) (int (length xs)) = Inr (xs @ c\<lparr>value_c := f (value_c c)\<rparr> # ys)"
  by (simp add: update_value_def)

lemma update_value_ids:
  "update_value f state j = Inr state' \<Longrightarrow> map id_c state' = map id_c state"
  by (auto simp: update_value_def map_update list_update_same_conv split: if_splits)

text \<open>The first entry with the payload's id is the one that changes, whatever follows it.\<close>

lemma increment_first_match:
  assumes "payload a = with_id k" and "k \<notin> set (map id_c xs)" and "id_c c = k"
  shows "increment (xs @ c # ys) a
           = Inr (xs @ c\<lparr>value_c := round_double (value_c c + 1)\<rparr> # ys)"
  by (simp add: increment_def findIndex_hit [OF assms] update_value_at)

lemma decrement_first_match:
  assumes "payload a = with_id k" and "k \<notin> set (map id_c xs)" and "id_c c = k"
  shows "decrement (xs @ c # ys) a
           = Inr (xs @ c\<lparr>value_c := round_double (value_c c - 1)\<rparr> # ys)"
  by (simp add: decrement_def findIndex_hit [OF assms] update_value_at)

lemma increment_miss:
  assumes "payload a = with_id k" and "k \<notin> set (map id_c state)"
  shows "increment state a = Inl TypeError"
  by (simp add: increment_def findIndex_miss [OF assms] update_value_outside)

lemma decrement_miss:
  assumes "payload a = with_id k" and "k \<notin> set (map id_c state)"
  shows "decrement state a = Inl TypeError"
  by (simp add: decrement_def findIndex_miss [OF assms] update_value_outside)

lemma increment_ids: "increment state a = Inr state' \<Longrightarrow> map id_c state' = map id_c state"
  by (auto simp: increment_def split: sum.splits dest: update_value_ids)

lemma decrement_ids: "decrement state a = Inr state' \<Longrightarrow> map id_c state' = map id_c state"
  by (auto simp: decrement_def split: sum.splits dest: update_value_ids)

text \<open>
  A counter action dispatched without a payload throws as well: on a non-empty region the
  callback reads \<^verbatim>\<open>id\<close> of \<^verbatim>\<open>undefined\<close>, on the empty region the search
  yields \<open>-1\<close>.
\<close>

lemma increment_without_payload: "increment state (increment_action JUndefined) = Inl TypeError"
  by (cases state) (simp_all add: increment_def findIndex_def same_id_def update_value_def)

lemma decrement_without_payload: "decrement state (decrement_action JUndefined) = Inl TypeError"
  by (cases state) (simp_all add: decrement_def findIndex_def same_id_def update_value_def)

text \<open>With distinct ids, replacing the one entry is a map over the region.\<close>

lemma replace_entry_map:
  assumes "distinct (map id_c (xs @ c # ys))"
  shows "xs @ c' # ys = map (\<lambda>e. if id_c e = id_c c then c' else e) (xs @ c # ys)"
proof -
  have "id_c c \<notin> id_c ` set xs" and "id_c c \<notin> id_c ` set ys"
    using assms by simp_all
  then have "\<And>e. e \<in> set xs \<Longrightarrow> id_c e \<noteq> id_c c" "\<And>e. e \<in> set ys \<Longrightarrow> id_c e \<noteq> id_c c"
    by (metis imageI)+
  then have "map (\<lambda>e. if id_c e = id_c c then c' else e) xs = xs"
    and "map (\<lambda>e. if id_c e = id_c c then c' else e) ys = ys"
    by (simp_all add: map_idI)
  then show ?thesis by simp
qed

section \<open>The counter region\<close>

text \<open>
  C1, as the spec states it: an increment or decrement whose id no counter has would
  return the region as it is.  The code does not: the search yields \<open>-1\<close>, the element
  read there is \<^verbatim>\<open>undefined\<close>, and reading its \<^verbatim>\<open>value\<close> throws.  On the
  initial region, no counter has id 3, and both actions end in a TypeError.
\<close>

theorem lookup_miss_counterexample:
  "3 \<notin> set (map id_c counter_initialState)
   \<and> counterReducer counter_initialState (increment_action (with_id 3)) = Inl TypeError
   \<and> counterReducer counter_initialState (decrement_action (with_id 3)) = Inl TypeError
   \<and> Inl TypeError \<noteq> (Inr counter_initialState :: js_error + counter list)"
  by (simp add: counter_initialState_def counterReducer_def increment_def decrement_def
      findIndex_def same_id_def with_id_def update_value_def)

text \<open>
  C1, amended: for every counter region and every id that no entry of the region has,
  the increment and the decrement of that id throw a TypeError and return no region.
\<close>

theorem lookup_miss_TypeError:
  assumes "k \<notin> set (map id_c state)"
  shows "counterReducer state (increment_action (with_id k)) = Inl TypeError
       \<and> counterReducer state (decrement_action (with_id k)) = Inl TypeError"
proof -
  have "increment state (increment_action (with_id k)) = Inl TypeError"
    using assms by (intro increment_miss [where k = k]) simp_all
  moreover have "decrement state (decrement_action (with_id k)) = Inl TypeError"
    using assms by (intro decrement_miss [where k = k]) simp_all
  ultimately show ?thesis by (simp add: counterReducer_def)
qed

theorem lookup_miss_TypeError_witness:
  "4 \<notin> set (map id_c [\<lparr>id_c = 5, value_c = 9\<rparr>])
   \<and> counterReducer [\<lparr>id_c = 5, value_c = 9\<rparr>] (increment_action (with_id 4)) = Inl TypeError
   \<and> counterReducer [\<lparr>id_c = 5, value_c = 9\<rparr>] (decrement_action (with_id 4)) = Inl TypeError"
proof -
  have h: "4 \<notin> set (map id_c [\<lparr>id_c = 5, value_c = 9\<rparr>])"
    by simp
  show ?thesis using h lookup_miss_TypeError [OF h] by simp
qed

text \<open>
  C6, as the spec states it: the increment of an entry at \<open>v\<close> would leave it at
  \<open>v + 1\<close> and the decrement at \<open>v - 1\<close>, for every integer \<open>v\<close>.  The value is a
  double: \<open>2 ^ 53 + 1\<close> is not one, and \<^verbatim>\<open>value++\<close> at \<open>2 ^ 53\<close> rounds back to
  \<open>2 ^ 53\<close>; likewise \<^verbatim>\<open>value--\<close> at \<open>- (2 ^ 53)\<close>.  Both return the region
  as it was.
\<close>

theorem increment_at_limit_counterexample:
  "is_double (2 ^ 53)
   \<and> counterReducer [\<lparr>id_c = 1, value_c = 2 ^ 53\<rparr>] (increment_action (with_id 1))
       = Inr [\<lparr>id_c = 1, value_c = 2 ^ 53\<rparr>]
   \<and> is_double (- (2 ^ 53))
   \<and> counterReducer [\<lparr>id_c = 1, value_c = - (2 ^ 53)\<rparr>] (decrement_action (with_id 1))
       = Inr [\<lparr>id_c = 1, value_c = - (2 ^ 53)\<rparr>]"
  by (simp add: counterReducer_def increment_def decrement_def findIndex_def same_id_def
      with_id_def update_value_def round_double_def is_double_def Let_def
      ulp_exp_small ulp_exp_large)

text \<open>
  C6, amended: in a counter region (its ids distinct) that has an entry with id \<open>k\<close>
  and value \<open>v\<close>, a double, the increment of \<open>k\<close> returns the region with that entry
  at the double nearest to \<open>v + 1\<close>, which is \<open>v + 1\<close> exactly when
  \<open>- (2 ^ 53) \<le> v < 2 ^ 53\<close>, and the decrement returns it with that entry at the
  double nearest to \<open>v - 1\<close>, which is \<open>v - 1\<close> exactly when
  \<open>- (2 ^ 53) < v \<le> 2 ^ 53\<close>; every other entry is as it was.  Nothing else bounds
  the value from below: the decrement of an entry at 0 leaves it at \<open>-1\<close>.
\<close>

theorem increment_decrement_entry:
  assumes "distinct (map id_c state)" and "c \<in> set state" and "id_c c = k" and "value_c c = v"
    and "is_double v"
  shows "counterReducer state (increment_action (with_id k))
           = Inr (map (\<lambda>e. if id_c e = k then \<lparr>id_c = k, value_c = round_double (v + 1)\<rparr> else e)
                    state)
       \<and> (round_double (v + 1) = v + 1) = (- (2 ^ 53) \<le> v \<and> v < 2 ^ 53)
       \<and> counterReducer state (decrement_action (with_id k))
           = Inr (map (\<lambda>e. if id_c e = k then \<lparr>id_c = k, value_c = round_double (v - 1)\<rparr> else e)
                    state)
       \<and> (round_double (v - 1) = v - 1) = (- (2 ^ 53) < v \<and> v \<le> 2 ^ 53)"
proof -
  from assms(2) obtain xs ys where split: "state = xs @ c # ys"
    by (auto simp: in_set_conv_decomp)
  have first: "k \<notin> set (map id_c xs)"
    using assms(1,3) split by auto
  have dist: "distinct (map id_c (xs @ c # ys))"
    using assms(1) split by simp
  have up: "c\<lparr>value_c := round_double (value_c c + 1)\<rparr> = \<lparr>id_c = k, value_c = round_double (v + 1)\<rparr>"
    and down: "c\<lparr>value_c := round_double (value_c c - 1)\<rparr> = \<lparr>id_c = k, value_c = round_double (v - 1)\<rparr>"
    using assms(3,4) by simp_all
  have "increment state (increment_action (with_id k))
          = Inr (xs @ \<lparr>id_c = k, value_c = round_double (v + 1)\<rparr> # ys)"
    unfolding split
    using increment_first_match [where a = "increment_action (with_id k)" and k = k
        and xs = xs and c = c and ys = ys] first assms(3) up
    by simp
  moreover have "decrement state (decrement_action (with_id k))
          = Inr (xs @ \<lparr>id_c = k, value_c = round_double (v - 1)\<rparr> # ys)"
    unfolding split
    using decrement_first_match [where a = "decrement_action (with_id k)" and k = k
        and xs = xs and c = c and ys = ys] first assms(3) down
    by simp
  moreover have "\<And>c'. xs @ c' # ys = map (\<lambda>e. if id_c e = k then c' else e) state"
    using replace_entry_map [OF dist] assms(3) split by simp
  ultimately have
    "counterReducer state (increment_action (with_id k))
       = Inr (map (\<lambda>e. if id_c e = k then \<lparr>id_c = k, value_c = round_double (v + 1)\<rparr> else e)
                state)"
    and "counterReducer state (decrement_action (with_id k))
       = Inr (map (\<lambda>e. if id_c e = k then \<lparr>id_c = k, value_c = round_double (v - 1)\<rparr> else e)
                state)"
    by (simp_all add: counterReducer_def)
  then show ?thesis
    using exact_increment_iff [OF assms(5)] exact_decrement_iff [OF assms(5)] by simp
qed

theorem increment_decrement_entry_witness:
  "distinct (map id_c counter_initialState)
   \<and> \<lparr>id_c = 1, value_c = 0\<rparr> \<in> set counter_initialState
   \<and> is_double 0
   \<and> counterReducer counter_initialState (increment_action (with_id 1))
       = Inr [\<lparr>id_c = 1, value_c = 1\<rparr>, \<lparr>id_c = 2, value_c = 0\<rparr>]
   \<and> counterReducer counter_initialState (decrement_action (with_id 1))
       = Inr [\<lparr>id_c = 1, value_c = - 1\<rparr>, \<lparr>id_c = 2, value_c = 0\<rparr>]"
proof -
  have d: "distinct (map id_c counter_initialState)"
    and m: "\<lparr>id_c = 1, value_c = 0\<rparr> \<in> set counter_initialState"
    by (simp_all add: counter_initialState_def)
  have i: "id_c \<lparr>id_c = 1, value_c = 0\<rparr> = 1" and v: "value_c \<lparr>id_c = 1, value_c = 0\<rparr> = 0"
    by simp_all
  have z: "is_double 0"
    by (simp add: is_double_small)
  show ?thesis
    using d m z increment_decrement_entry [OF d m i v z]
    by (simp add: counter_initialState_def)
qed

text \<open>
  C9: a counter transition that returns a region returns one with the ids of the region
  it was given, in the same order, and so of the same length.
\<close>

theorem counterReducer_preserves_ids:
  assumes "counterReducer state a = Inr state'"
  shows "map id_c state' = map id_c state \<and> length state' = length state"
proof -
  have "map id_c state' = map id_c state"
    using assms
    by (auto simp: counterReducer_def split: if_splits dest: increment_ids decrement_ids)
  then show ?thesis by (metis length_map)
qed

theorem counterReducer_preserves_ids_witness:
  "counterReducer counter_initialState (decrement_action (with_id 2))
     = Inr [\<lparr>id_c = 1, value_c = 0\<rparr>, \<lparr>id_c = 2, value_c = - 1\<rparr>]
   \<and> map id_c [\<lparr>id_c = 1, value_c = 0\<rparr>, \<lparr>id_c = 2, value_c = - 1\<rparr>] = map id_c counter_initialState
   \<and> length [\<lparr>id_c = 1, value_c = 0\<rparr>, \<lparr>id_c = 2, value_c = - 1::int\<rparr>] = length counter_initialState"
proof -
  have h: "counterReducer counter_initialState (decrement_action (with_id 2))
     = Inr [\<lparr>id_c = 1, value_c = 0\<rparr>, \<lparr>id_c = 2, value_c = - 1\<rparr>]"
    by (simp add: counter_initialState_def counterReducer_def decrement_def
        findIndex_def same_id_def with_id_def update_value_def round_double_exact)
  show ?thesis using h counterReducer_preserves_ids [OF h] by simp
qed

section \<open>The posts region\<close>

lemma type_pending_action [simp]: "type pending_action = ''posts/fetchPosts/pending''"
  by (simp add: pending_action_def)

lemma type_fulfilled_action [simp]: "type (fulfilled_action p) = ''posts/fetchPosts/fulfilled''"
  by (simp add: fulfilled_action_def)

lemma type_rejected_action [simp]: "type (rejected_action m) = ''posts/fetchPosts/rejected''"
  by (simp add: rejected_action_def)

lemma postReducer_pending: "postReducer state pending_action = on_pending state"
  by (simp add: postReducer_def)

lemma postReducer_fulfilled:
  "postReducer state (fulfilled_action p) = state\<lparr>isLoading := False, posts := p\<rparr>"
  by (simp add: postReducer_def on_fulfilled_def fulfilled_action_def)

lemma postReducer_rejected:
  "postReducer state (rejected_action m) = state\<lparr>isLoading := False, isError := True, error := m\<rparr>"
  by (simp add: postReducer_def on_rejected_def rejected_action_def)

text \<open>
  C2, as the spec states it: the fulfilled action would leave the region succeeded from
  every prior state.  The fulfilled case does not touch \<^verbatim>\<open>isError\<close>: from a failed
  region (here the one a rejected action leaves) the result still has the flag set.
\<close>

theorem fulfilled_after_failed_counterexample:
  "status_failed (postReducer post_initialState (rejected_action ''boom''))
   \<and> \<not> status_succeeded
         (postReducer (postReducer post_initialState (rejected_action ''boom''))
            (fulfilled_action (JArr [])))"
  by (simp add: postReducer_rejected postReducer_fulfilled post_initialState_def
      status_failed_def status_succeeded_def)

text \<open>
  C2, amended: from every prior state the fulfilled action returns the region with
  \<^verbatim>\<open>posts\<close> replaced by the payload as it is and \<^verbatim>\<open>isLoading\<close> cleared, and with
  \<^verbatim>\<open>isError\<close> and \<^verbatim>\<open>error\<close> as they were; the result is succeeded exactly when
  the prior state did not have \<^verbatim>\<open>isError\<close> set.
\<close>

theorem fulfilled_replaces_posts:
  "postReducer state (fulfilled_action p)
     = \<lparr>posts = p, isLoading = False, isError = isError state, error = error state\<rparr>
   \<and> status_succeeded (postReducer state (fulfilled_action p)) = (\<not> isError state)"
  by (simp add: postReducer_fulfilled status_succeeded_def)

text \<open>
  C4: from every state, pending then fulfilled with \<open>X\<close> gives a succeeded region holding
  \<open>X\<close>; pending then rejected with a message \<open>m\<close> (any message, \<^verbatim>\<open>boom\<close> among them)
  gives a failed region with that message and the posts of the starting state.  Pending keeps the posts and clears the message;
  rejected keeps the posts.
\<close>

theorem pending_then_settled:
  "postReducer (postReducer state pending_action) (fulfilled_action X)
     = \<lparr>posts = X, isLoading = False, isError = False, error = ''''\<rparr>
   \<and> status_succeeded (postReducer (postReducer state pending_action) (fulfilled_action X))
   \<and> postReducer (postReducer state pending_action) (rejected_action m)
     = \<lparr>posts = posts state, isLoading = False, isError = True, error = m\<rparr>
   \<and> status_failed (postReducer (postReducer state pending_action) (rejected_action m))
   \<and> postReducer state pending_action
     = \<lparr>posts = posts state, isLoading = True, isError = False, error = ''''\<rparr>
   \<and> posts (postReducer state (rejected_action m)) = posts state"
  by (simp add: postReducer_pending postReducer_fulfilled postReducer_rejected on_pending_def
      status_succeeded_def status_failed_def)

text \<open>
  C8: the fulfilled action applied twice gives the region it gives applied once.
\<close>

theorem fulfilled_idempotent:
  "postReducer (postReducer state (fulfilled_action X)) (fulfilled_action X)
     = postReducer state (fulfilled_action X)"
  by (simp add: postReducer_fulfilled)

text \<open>
  C3, as the spec states it: in every reachable region the message would be non-empty
  exactly when the region is failed.  The rejected case stores the message it is given,
  also an empty one: after one rejected action with the empty message the region is
  failed and its message is empty.
\<close>

theorem error_iff_failed_counterexample:
  "status_failed (run_posts post_initialState [rejected_action ''''])
   \<and> error (run_posts post_initialState [rejected_action '''']) = ''''"
  by (simp add: run_posts_def postReducer_rejected post_initialState_def status_failed_def)

text \<open>
  The flags and the message through a history: an error flag is never set while loading,
  a message is never there without the flag, and the flag stands with an empty message
  exactly when the last pending or rejected action was a rejected one with the empty
  message.
\<close>

lemma empty_rejection_last_snoc:
  "empty_rejection_last (as @ [a]) =
     (if type a = ''posts/fetchPosts/pending'' then False
      else if type a = ''posts/fetchPosts/rejected'' then error_message a = ''''
      else empty_rejection_last as)"
  by (simp add: empty_rejection_last_def)

lemma run_posts_snoc: "run_posts state (as @ [a]) = postReducer (run_posts state as) a"
  by (simp add: run_posts_def)

lemma run_posts_flags:
  "(isError (run_posts post_initialState as) \<longrightarrow> \<not> isLoading (run_posts post_initialState as))
   \<and> (error (run_posts post_initialState as) \<noteq> '''' \<longrightarrow> isError (run_posts post_initialState as))
   \<and> empty_rejection_last as
       = (isError (run_posts post_initialState as) \<and> error (run_posts post_initialState as) = '''')"
proof (induction as rule: rev_induct)
  case Nil
  show ?case by (simp add: run_posts_def post_initialState_def empty_rejection_last_def)
next
  case (snoc a as)
  then show ?case
    unfolding run_posts_snoc empty_rejection_last_snoc
    by (simp add: postReducer_def on_pending_def on_fulfilled_def on_rejected_def)
qed

text \<open>
  C3, amended: with failed read off the flags (\<^verbatim>\<open>isError\<close> set and \<^verbatim>\<open>isLoading\<close>
  not), in every region reached from the initial state by any actions a non-empty message
  implies that the region is failed; and the message is non-empty exactly when the region
  is failed in every such region but those whose most recent pending or rejected action
  was a rejected one carrying the empty message (there the region is failed and its
  message empty).
\<close>

theorem error_iff_failed:
  "(error (run_posts post_initialState as) \<noteq> '''' \<longrightarrow> status_failed (run_posts post_initialState as))
   \<and> ((error (run_posts post_initialState as) \<noteq> '''') = status_failed (run_posts post_initialState as))
       = (\<not> empty_rejection_last as)"
  using run_posts_flags [of as] by (auto simp: status_failed_def)

theorem error_iff_failed_witness:
  "\<not> empty_rejection_last [rejected_action '''', pending_action, rejected_action ''boom'']
   \<and> error (run_posts post_initialState
        [rejected_action '''', pending_action, rejected_action ''boom'']) = ''boom''
   \<and> status_failed (run_posts post_initialState
        [rejected_action '''', pending_action, rejected_action ''boom''])"
proof -
  have e: "error (run_posts post_initialState
        [rejected_action '''', pending_action, rejected_action ''boom'']) = ''boom''"
    by (simp add: run_posts_def postReducer_pending postReducer_rejected on_pending_def)
  have n: "\<not> empty_rejection_last [rejected_action '''', pending_action, rejected_action ''boom'']"
    by (simp add: empty_rejection_last_def rejected_action_def)
  show ?thesis
    using e n error_iff_failed [of "[rejected_action '''', pending_action, rejected_action ''boom'']"]
    by simp
qed

section \<open>The root reducer\<close>

text \<open>
  C5: an action whose type is none of the five the two slices handle leaves the snapshot
  as it is, and so both regions.
\<close>

theorem unrecognized_identity:
  assumes "type a \<notin> {''counters/increment'', ''counters/decrement'',
      ''posts/fetchPosts/pending'', ''posts/fetchPosts/fulfilled'', ''posts/fetchPosts/rejected''}"
  shows "rootReducer state a = Inr state
       \<and> counterReducer (state_counters state) a = Inr (state_counters state)
       \<and> postReducer (state_posts state) a = state_posts state"
  using assms by (simp add: rootReducer_def counterReducer_def postReducer_def)

theorem unrecognized_identity_witness:
  "type \<lparr>type = ''@@INIT'', payload = JUndefined, error_message = ''''\<rparr>
     \<notin> {''counters/increment'', ''counters/decrement'',
         ''posts/fetchPosts/pending'', ''posts/fetchPosts/fulfilled'', ''posts/fetchPosts/rejected''}
   \<and> rootReducer store_initialState \<lparr>type = ''@@INIT'', payload = JUndefined, error_message = ''''\<rparr>
       = Inr store_initialState"
proof -
  have h: "type \<lparr>type = ''@@INIT'', payload = JUndefined, error_message = ''''\<rparr>
     \<notin> {''counters/increment'', ''counters/decrement'',
         ''posts/fetchPosts/pending'', ''posts/fetchPosts/fulfilled'', ''posts/fetchPosts/rejected''}"
    by simp
  show ?thesis using h unrecognized_identity [OF h, of store_initialState] by simp
qed

text \<open>
  C7: a counter action that returns a snapshot returns one with the posts region it was
  given; a lifecycle action of the thunk always returns a snapshot, with the counters
  region it was given and the posts region the posts reducer makes.
\<close>

theorem untargeted_region_untouched:
  "(type a \<in> {''counters/increment'', ''counters/decrement''} \<longrightarrow>
      (\<forall>state'. rootReducer state a = Inr state' \<longrightarrow> state_posts state' = state_posts state))
   \<and> (type a \<in> {''posts/fetchPosts/pending'', ''posts/fetchPosts/fulfilled'',
                  ''posts/fetchPosts/rejected''} \<longrightarrow>
        rootReducer state a
          = Inr \<lparr>state_counters = state_counters state,
                 state_posts = postReducer (state_posts state) a\<rparr>)"
proof (intro conjI impI allI)
  fix state'
  assume "type a \<in> {''counters/increment'', ''counters/decrement''}"
  then have "postReducer (state_posts state) a = state_posts state"
    by (auto simp: postReducer_def)
  moreover assume "rootReducer state a = Inr state'"
  ultimately show "state_posts state' = state_posts state"
    by (auto simp: rootReducer_def split: sum.splits)
next
  assume "type a \<in> {''posts/fetchPosts/pending'', ''posts/fetchPosts/fulfilled'',
                  ''posts/fetchPosts/rejected''}"
  then have "counterReducer (state_counters state) a = Inr (state_counters state)"
    by (auto simp: counterReducer_def)
  then show "rootReducer state a
          = Inr \<lparr>state_counters = state_counters state,
                 state_posts = postReducer (state_posts state) a\<rparr>"
    by (simp add: rootReducer_def)
qed

theorem untargeted_region_untouched_witness:
  "rootReducer store_initialState (increment_action (with_id 1))
     = Inr \<lparr>state_counters = [\<lparr>id_c = 1, value_c = 1\<rparr>, \<lparr>id_c = 2, value_c = 0\<rparr>],
            state_posts = post_initialState\<rparr>
   \<and> rootReducer store_initialState (fulfilled_action (JArr [JNum 7]))
     = Inr \<lparr>state_counters = counter_initialState,
            state_posts = \<lparr>posts = JArr [JNum 7], isLoading = False, isError = False, error = ''''\<rparr>\<rparr>"
proof -
  have c: "counterReducer counter_initialState (increment_action (with_id 1))
      = Inr [\<lparr>id_c = 1, value_c = 1\<rparr>, \<lparr>id_c = 2, value_c = 0\<rparr>]"
    by (simp add: counter_initialState_def counterReducer_def increment_def
        findIndex_def same_id_def with_id_def update_value_def round_double_exact)
  obtain state' where r: "rootReducer store_initialState (increment_action (with_id 1)) = Inr state'"
    and cs: "state_counters state' = [\<lparr>id_c = 1, value_c = 1\<rparr>, \<lparr>id_c = 2, value_c = 0\<rparr>]"
    using c by (simp add: rootReducer_def store_initialState_def)
  have "state_posts state' = post_initialState"
    using untargeted_region_untouched [of "increment_action (with_id 1)" store_initialState] r
    by (simp add: store_initialState_def)
  with cs have "state' = \<lparr>state_counters = [\<lparr>id_c = 1, value_c = 1\<rparr>, \<lparr>id_c = 2, value_c = 0\<rparr>],
            state_posts = post_initialState\<rparr>"
    by simp
  with r show ?thesis
    using untargeted_region_untouched [of "fulfilled_action (JArr [JNum 7])" store_initialState]
    by (simp add: store_initialState_def postReducer_fulfilled post_initialState_def)
qed

section \<open>The thunk's dispatches\<close>

text \<open>
  C10: when \<^verbatim>\<open>fetch\<close> completes and the body parses, the thunk dispatches pending and
  then fulfilled with the parsed value, whatever the HTTP status: nothing reads it.  A
  rejected action is dispatched exactly when \<^verbatim>\<open>fetch\<close> or \<^verbatim>\<open>response.json()\<close>
  throws, and carries the message of what was thrown.
\<close>

theorem fetchPosts_ignores_status:
  "fetchPosts (Inr \<lparr>status = st, json = Inr d\<rparr>) = [pending_action, fulfilled_action d]
   \<and> fetchPosts (Inl m) = [pending_action, rejected_action m]
   \<and> fetchPosts (Inr \<lparr>status = st, json = Inl m\<rparr>) = [pending_action, rejected_action m]
   \<and> (''posts/fetchPosts/rejected'' \<in> set (map type (fetchPosts fetched)))
       = (case fetched of Inl m \<Rightarrow> True | Inr response \<Rightarrow> isl (json response))
   \<and> (''posts/fetchPosts/fulfilled'' \<in> set (map type (fetchPosts fetched)))
       = (case fetched of Inl m \<Rightarrow> False | Inr response \<Rightarrow> \<not> isl (json response))"
  by (simp add: fetchPosts_def fetchPosts_body_def split: sum.splits)

end
